theory Spec2Isabelle
  imports Complex_Main "HOL-Library.Sublist"
begin

section \<open>Strings, as the program uses them\<close>

text \<open>
  File names and the search text are Python \<open>str\<close> values. They are modelled as
  \<open>string\<close>, a list of 8-bit characters, each read as the code point of the same
  number: the model covers the text over U+0000 to U+00FF, and text with a character
  beyond U+00FF is outside it.

  On these code points \<open>str.lower\<close> works character by character: the letters A to Z
  (65 to 90) and the capital letters of the Latin-1 block (192 to 222, without the
  multiplication sign 215) go to the code point 32 higher, everything else stays; this
  is \<open>lower\<close>. \<open>str.strip\<close> removes the characters for which \<open>str.isspace\<close>
  holds: tab, line feed, vertical tab, form feed, carriage return (9 to 13), the four
  separators 28 to 31, the blank 32, the next-line control 133 and the no-break space
  160; this is \<open>is_space\<close>.
\<close>

definition lower_char :: "char \<Rightarrow> char" where
  "lower_char c =
     (let n = (of_char c :: nat)
      in if (65 \<le> n \<and> n \<le> 90) \<or> (192 \<le> n \<and> n \<le> 222 \<and> n \<noteq> 215)
         then char_of (n + 32) else c)"

definition lower :: "string \<Rightarrow> string" where
  "lower s = map lower_char s"

definition is_space :: "char \<Rightarrow> bool" where
  "is_space c =
     (let n = (of_char c :: nat)
      in (9 \<le> n \<and> n \<le> 13) \<or> (28 \<le> n \<and> n \<le> 32) \<or> n = 133 \<or> n = 160)"

definition strip :: "string \<Rightarrow> string" where
  "strip s = rev (dropWhile is_space (rev (dropWhile is_space s)))"

text \<open>Python's \<open>a in b\<close> on strings: \<open>a\<close> occurs in \<open>b\<close> as a contiguous run.\<close>

fun starts_with :: "string \<Rightarrow> string \<Rightarrow> bool" where
  "starts_with [] s = True"
| "starts_with (p # ps) [] = False"
| "starts_with (p # ps) (c # cs) = (p = c \<and> starts_with ps cs)"

fun str_in :: "string \<Rightarrow> string \<Rightarrow> bool" where
  "str_in a [] = (a = [])"
| "str_in a (c # cs) = (starts_with a (c # cs) \<or> str_in a cs)"

section \<open>The audio extension pattern\<close>

text \<open>
  \<^verbatim>\<open>AUDIO_EXT_RE = re.compile(r"\.(wav|wave)$", re.IGNORECASE)\<close>

  The pattern is a literal dot, one of the two alternatives, and \<open>$\<close>. Without
  \<open>re.MULTILINE\<close>, Python's \<open>$\<close> matches at the end of the string and also just
  before a line feed that is the last character of the string. \<open>match_ci\<close> consumes a
  literal without regard to case and returns what is left: of the letters of the
  pattern, w, a, v and e, each matches itself and its capital and no other character.
  \<open>search\<close> tries the pattern at every position, as \<open>Pattern.search\<close> does.
\<close>

definition newline :: char where
  "newline = char_of (10 :: nat)"

definition at_dollar :: "string \<Rightarrow> bool" where
  "at_dollar s = (s = [] \<or> s = [newline])"

fun match_ci :: "string \<Rightarrow> string \<Rightarrow> string option" where
  "match_ci [] s = Some s"
| "match_ci (p # ps) [] = None"
| "match_ci (p # ps) (c # cs) =
     (if lower_char p = lower_char c then match_ci ps cs else None)"

definition AUDIO_EXT_RE :: "string \<Rightarrow> bool" where
  "AUDIO_EXT_RE s =
     (case match_ci ''.'' s of
        None \<Rightarrow> False
      | Some r \<Rightarrow>
          (case match_ci ''wav'' r of Some t \<Rightarrow> at_dollar t | None \<Rightarrow> False) \<or>
          (case match_ci ''wave'' r of Some t \<Rightarrow> at_dollar t | None \<Rightarrow> False))"

fun search :: "(string \<Rightarrow> bool) \<Rightarrow> string \<Rightarrow> bool" where
  "search re [] = re []"
| "search re (c # cs) = (re (c # cs) \<or> search re cs)"

section \<open>Listing the audio files of a folder\<close>

text \<open>
  An entry of a Drive listing is a dictionary with the requested fields; a field may be
  missing. \<open>f.get("name")\<close> is the field or \<open>None\<close>, \<open>f["name"]\<close> raises
  \<open>KeyError\<close> when it is missing.
\<close>

datatype error =
    KeyError string
  | ZeroDivisionError
  | HttpError string

record drive_file =
  file_id :: string
  name :: "string option"
  mimeType :: "string option"
  file_size :: "string option"

definition get_name :: "drive_file \<Rightarrow> string option" where
  "get_name f = name f"

definition index_name :: "drive_file \<Rightarrow> error + string" where
  "index_name f = (case name f of None \<Rightarrow> Inl (KeyError ''name'') | Some n \<Rightarrow> Inr n)"

text \<open>Truthiness of \<open>f.get("name")\<close>: \<open>None\<close> and the empty string are false.\<close>

definition truthy :: "string option \<Rightarrow> bool" where
  "truthy v = (case v of None \<Rightarrow> False | Some n \<Rightarrow> n \<noteq> [])"

text \<open>
  The condition of the comprehension,
  \<^verbatim>\<open>f.get("name") and AUDIO_EXT_RE.search(f["name"])\<close>:
  the right operand is evaluated only when the left one is true.
\<close>

definition is_wav :: "drive_file \<Rightarrow> error + bool" where
  "is_wav f =
     (if truthy (get_name f)
      then (case index_name f of Inl e \<Rightarrow> Inl e | Inr n \<Rightarrow> Inr (search AUDIO_EXT_RE n))
      else Inr False)"

text \<open>\<^verbatim>\<open>wavs = [f for f in files if ...]\<close>: the first error ends the comprehension.\<close>

fun wavs :: "drive_file list \<Rightarrow> error + drive_file list" where
  "wavs [] = Inr []"
| "wavs (f # fs) =
     (case is_wav f of
        Inl e \<Rightarrow> Inl e
      | Inr b \<Rightarrow>
          (case wavs fs of
             Inl e \<Rightarrow> Inl e
           | Inr r \<Rightarrow> Inr (if b then f # r else r)))"

section \<open>The search box\<close>

text \<open>
  \<^verbatim>\<open>if query.strip():
      files = [f for f in files if query.lower() in f["name"].lower()]\<close>
\<close>

fun filter_by_query :: "string \<Rightarrow> drive_file list \<Rightarrow> error + drive_file list" where
  "filter_by_query query [] = Inr []"
| "filter_by_query query (f # fs) =
     (case index_name f of
        Inl e \<Rightarrow> Inl e
      | Inr n \<Rightarrow>
          (case filter_by_query query fs of
             Inl e \<Rightarrow> Inl e
           | Inr r \<Rightarrow> Inr (if str_in (lower query) (lower n) then f # r else r)))"

definition apply_query :: "string \<Rightarrow> drive_file list \<Rightarrow> error + drive_file list" where
  "apply_query query files =
     (if strip query \<noteq> [] then filter_by_query query files else Inr files)"

text \<open>
  What the specification calls a case-insensitive substring: some contiguous run of the
  name equals the search text once both are lower-cased.
\<close>

definition ci_substring :: "string \<Rightarrow> string \<Rightarrow> bool" where
  "ci_substring q n = (\<exists>pre mid post. n = pre @ mid @ post \<and> lower mid = lower q)"

definition name_contains :: "string \<Rightarrow> drive_file \<Rightarrow> bool" where
  "name_contains q f = (case name f of None \<Rightarrow> False | Some n \<Rightarrow> ci_substring q n)"

text \<open>
  What the specification calls the audio extension: the name, lower-cased, ends in
  \<open>.wav\<close> or \<open>.wave\<close>.
\<close>

definition has_audio_suffix :: "string \<Rightarrow> bool" where
  "has_audio_suffix n = (suffix ''.wav'' (lower n) \<or> suffix ''.wave'' (lower n))"

section \<open>Pagination\<close>

text \<open>
  Python's \<open>xs[i:j]\<close>: a negative bound counts from the end, and both bounds are
  clamped to the list; an empty range gives the empty list, never an error.
\<close>

definition py_slice :: "'a list \<Rightarrow> int \<Rightarrow> int \<Rightarrow> 'a list" where
  "py_slice xs i j =
     (let n = int (length xs);
          i' = (if i < 0 then max 0 (n + i) else min i n);
          j' = (if j < 0 then max 0 (n + j) else min j n)
      in take (nat (j' - i')) (drop (nat i') xs))"

text \<open>
  \<^verbatim>\<open>page_count = max(1, (total + page_size - 1) // page_size)\<close>

  \<open>//\<close> is floor division, as \<open>div\<close> on \<open>int\<close> is, and raises on a zero divisor.
\<close>

definition page_count :: "int \<Rightarrow> int \<Rightarrow> error + int" where
  "page_count total' page_size =
     (if page_size = 0 then Inl ZeroDivisionError
      else Inr (max 1 ((total' + page_size - 1) div page_size)))"

text \<open>
  \<^verbatim>\<open>start = (page - 1) * page_size
  end = min(start + page_size, total)
  files_page = files[start:end]\<close>
\<close>

definition files_page :: "'a list \<Rightarrow> int \<Rightarrow> int \<Rightarrow> 'a list" where
  "files_page files page_size page =
     (let total' = int (length files);
          start = (page - 1) * page_size;
          end' = min (start + page_size) total'
      in py_slice files start end')"

section \<open>Downloading a file\<close>

text \<open>
  \<^verbatim>\<open>done = False
  while not done:
      _, done = downloader.next_chunk()
  return fh.getvalue()\<close>

  The downloader belongs to the Drive client. It is modelled by its state \<open>'d\<close> and
  a step \<open>next_chunk\<close>, which fails or hands over the bytes it appends to the buffer
  \<open>fh\<close>, the flag \<open>done\<close> and its next state. The loop may run forever on a
  downloader that never reports \<open>done\<close>: not returning is the value \<open>None\<close>.
\<close>

type_synonym bytes = "char list"

type_synonym 'd downloader = "'d \<Rightarrow> error + (bytes \<times> bool \<times> 'd)"

partial_function (option) download_loop ::
  "'d downloader \<Rightarrow> 'd \<Rightarrow> bytes \<Rightarrow> (error + bytes) option" where
  "download_loop next_chunk d fh =
     (case next_chunk d of
        Inl e \<Rightarrow> Some (Inl e)
      | Inr (chunk, done, d') \<Rightarrow>
          if done then Some (Inr (fh @ chunk))
          else download_loop next_chunk d' (fh @ chunk))"

text \<open>
  A simulated reader: the chunks still to come, each with the flag it is delivered
  with. Asking an exhausted reader for a chunk is an error.
\<close>

fun chunk_reader :: "(bytes \<times> bool) list downloader" where
  "chunk_reader [] = Inl (HttpError ''no more chunks'')"
| "chunk_reader ((chunk, done) # rest) = Inr (chunk, done, rest)"

text \<open>The chunks as the reader of the specification delivers them: \<open>done\<close> with the last.\<close>

definition then_done :: "bytes list \<Rightarrow> bytes \<Rightarrow> (bytes \<times> bool) list" where
  "then_done chunks final = map (\<lambda>c. (c, False)) chunks @ [(final, True)]"

section \<open>The visible page\<close>

text \<open>
  Lines 125 to 137 of the script in one function: the search box, the page count (which
  bounds the page widget) and the slice.
\<close>

definition visible_page :: "drive_file list \<Rightarrow> string \<Rightarrow> int \<Rightarrow> int \<Rightarrow> error + drive_file list" where
  "visible_page files query page_size page =
     (case apply_query query files of
        Inl e \<Rightarrow> Inl e
      | Inr filtered \<Rightarrow>
          (case page_count (int (length filtered)) page_size of
             Inl e \<Rightarrow> Inl e
           | Inr pc \<Rightarrow> Inr (files_page filtered page_size page)))"

section \<open>The Drive client\<close>

text \<open>
  The two settings the program reads from \<open>st.secrets\<close>; either may be missing.
  \<open>st.secrets["gcp_service_account"]\<close> raises \<open>KeyError\<close> on a missing key; the
  credential material itself is opaque here.
\<close>

record secrets =
  GDRIVE_ROOT_FOLDER_ID :: "string option"
  gcp_service_account :: "string option"

definition get_drive_service :: "secrets \<Rightarrow> error + string" where
  "get_drive_service sec =
     (case gcp_service_account sec of
        None \<Rightarrow> Inl (KeyError ''gcp_service_account'')
      | Some creds_dict \<Rightarrow> Inr creds_dict)"

text \<open>
  The arguments of \<open>service.files().list(...)\<close>, and the calls the program makes on the
  Drive service, in the order it makes them.
\<close>

record list_request =
  q_arg :: string
  fields_arg :: string
  pageSize_arg :: nat
  orderBy_arg :: string

datatype call =
    Files_list list_request
  | Get_media string

text \<open>
  The Drive service is the collaborator. \<open>execute\<close> answers a listing request made at
  some time with an error or with a response, whose \<open>files\<close> entry may be missing;
  \<open>media_reader\<close> is the downloader \<open>MediaIoBaseDownload\<close> starts with for a file and
  \<open>next_chunk\<close> its step.
\<close>

record 'd drive =
  execute :: "int \<Rightarrow> list_request \<Rightarrow> error + drive_file list option"
  media_reader :: "int \<Rightarrow> string \<Rightarrow> 'd"
  next_chunk :: "'d downloader"

definition quoted :: "string \<Rightarrow> string" where
  "quoted s = [CHR 0x27] @ s @ [CHR 0x27]"

definition res_get_files :: "drive_file list option \<Rightarrow> drive_file list" where
  "res_get_files res = (case res of None \<Rightarrow> [] | Some fs \<Rightarrow> fs)"

text \<open>
  \<^verbatim>\<open>q = (f"'{root_folder_id}' in parents "
       "and mimeType = 'application/vnd.google-apps.folder' "
       "and trashed = false")\<close>
\<close>

definition subfolders_request :: "string \<Rightarrow> list_request" where
  "subfolders_request root_folder_id =
     \<lparr>q_arg = quoted root_folder_id @ '' in parents '' @
              ''and mimeType = '' @ quoted ''application/vnd.google-apps.folder'' @ '' '' @
              ''and trashed = false'',
      fields_arg = ''files(id,name)'',
      pageSize_arg = 1000,
      orderBy_arg = ''name''\<rparr>"

text \<open>The body of \<open>list_subfolders\<close>; \<open>cs\<close> are the calls made so far.\<close>

definition list_subfolders_body ::
  "secrets \<Rightarrow> 'd drive \<Rightarrow> int \<Rightarrow> string \<Rightarrow> call list \<Rightarrow> (error + drive_file list) \<times> call list" where
  "list_subfolders_body sec drv now root_folder_id cs =
     (case get_drive_service sec of
        Inl e \<Rightarrow> (Inl e, cs)
      | Inr service \<Rightarrow>
          (let req = subfolders_request root_folder_id;
               cs' = cs @ [Files_list req]
           in case execute drv now req of
                Inl e \<Rightarrow> (Inl e, cs')
              | Inr res \<Rightarrow> (Inr (res_get_files res), cs')))"

text \<open>
  \<^verbatim>\<open>q = (f"'{folder_id}' in parents "
       "and trashed = false")\<close>
\<close>

definition wav_files_request :: "string \<Rightarrow> list_request" where
  "wav_files_request folder_id =
     \<lparr>q_arg = quoted folder_id @ '' in parents '' @ ''and trashed = false'',
      fields_arg = ''files(id,name,mimeType,size)'',
      pageSize_arg = 1000,
      orderBy_arg = ''name''\<rparr>"

definition list_wav_files_body ::
  "secrets \<Rightarrow> 'd drive \<Rightarrow> int \<Rightarrow> string \<Rightarrow> call list \<Rightarrow> (error + drive_file list) \<times> call list" where
  "list_wav_files_body sec drv now folder_id cs =
     (case get_drive_service sec of
        Inl e \<Rightarrow> (Inl e, cs)
      | Inr service \<Rightarrow>
          (let req = wav_files_request folder_id;
               cs' = cs @ [Files_list req]
           in case execute drv now req of
                Inl e \<Rightarrow> (Inl e, cs')
              | Inr res \<Rightarrow> (wavs (res_get_files res), cs')))"

definition download_file_bytes_body ::
  "secrets \<Rightarrow> 'd drive \<Rightarrow> int \<Rightarrow> string \<Rightarrow> call list \<Rightarrow> ((error + bytes) \<times> call list) option" where
  "download_file_bytes_body sec drv now file_id' cs =
     (case get_drive_service sec of
        Inl e \<Rightarrow> Some (Inl e, cs)
      | Inr service \<Rightarrow>
          (case download_loop (next_chunk drv) (media_reader drv now file_id') [] of
             None \<Rightarrow> None
           | Some r \<Rightarrow> Some (r, cs @ [Get_media file_id'])))"

section \<open>The caches\<close>

text \<open>
  Modelled from the spec: \<open>st.cache_data(ttl=...)\<close>, the decorator of the three
  functions, is Streamlit's and not in the sources. Following the specification, a
  cache table maps a key to a value and the time it was fetched; an entry is valid for
  reads while \<open>now - fetchedAt < ttl\<close>; a call returns a valid entry if there is one and
  otherwise runs the body, stores a result (not an error) with the current time and
  returns it.
\<close>

type_synonym ('k, 'v) cache_table = "'k \<rightharpoonup> 'v \<times> int"

definition cache_read :: "int \<Rightarrow> int \<Rightarrow> ('k, 'v) cache_table \<Rightarrow> 'k \<Rightarrow> 'v option" where
  "cache_read ttl now table k =
     (case table k of
        None \<Rightarrow> None
      | Some (v, fetchedAt) \<Rightarrow> if now - fetchedAt < ttl then Some v else None)"

record world =
  calls :: "call list"
  subfolders_cache :: "(string, drive_file list) cache_table"
  wav_files_cache :: "(string, drive_file list) cache_table"
  file_bytes_cache :: "(string, bytes) cache_table"

text \<open>\<^verbatim>\<open>@st.cache_data(ttl=60)
def list_subfolders(root_folder_id: str):\<close>\<close>

definition list_subfolders ::
  "secrets \<Rightarrow> 'd drive \<Rightarrow> int \<Rightarrow> string \<Rightarrow> world \<Rightarrow> (error + drive_file list) \<times> world" where
  "list_subfolders sec drv now root_folder_id w =
     (case cache_read 60 now (subfolders_cache w) root_folder_id of
        Some v \<Rightarrow> (Inr v, w)
      | None \<Rightarrow>
          (case list_subfolders_body sec drv now root_folder_id (calls w) of
             (Inl e, cs) \<Rightarrow> (Inl e, w\<lparr>calls := cs\<rparr>)
           | (Inr v, cs) \<Rightarrow>
               (Inr v, w\<lparr>calls := cs,
                          subfolders_cache := (subfolders_cache w)(root_folder_id \<mapsto> (v, now))\<rparr>)))"

text \<open>\<^verbatim>\<open>@st.cache_data(ttl=60)
def list_wav_files(folder_id: str):\<close>\<close>

definition list_wav_files ::
  "secrets \<Rightarrow> 'd drive \<Rightarrow> int \<Rightarrow> string \<Rightarrow> world \<Rightarrow> (error + drive_file list) \<times> world" where
  "list_wav_files sec drv now folder_id w =
     (case cache_read 60 now (wav_files_cache w) folder_id of
        Some v \<Rightarrow> (Inr v, w)
      | None \<Rightarrow>
          (case list_wav_files_body sec drv now folder_id (calls w) of
             (Inl e, cs) \<Rightarrow> (Inl e, w\<lparr>calls := cs\<rparr>)
           | (Inr v, cs) \<Rightarrow>
               (Inr v, w\<lparr>calls := cs,
                          wav_files_cache := (wav_files_cache w)(folder_id \<mapsto> (v, now))\<rparr>)))"

text \<open>\<^verbatim>\<open>@st.cache_data(ttl=3600)
def download_file_bytes(file_id: str) -> bytes:\<close>\<close>

definition download_file_bytes ::
  "secrets \<Rightarrow> 'd drive \<Rightarrow> int \<Rightarrow> string \<Rightarrow> world \<Rightarrow> ((error + bytes) \<times> world) option" where
  "download_file_bytes sec drv now file_id' w =
     (case cache_read 3600 now (file_bytes_cache w) file_id' of
        Some v \<Rightarrow> Some (Inr v, w)
      | None \<Rightarrow>
          (case download_file_bytes_body sec drv now file_id' (calls w) of
             None \<Rightarrow> None
           | Some (Inl e, cs) \<Rightarrow> Some (Inl e, w\<lparr>calls := cs\<rparr>)
           | Some (Inr v, cs) \<Rightarrow>
               Some (Inr v, w\<lparr>calls := cs,
                               file_bytes_cache := (file_bytes_cache w)(file_id' \<mapsto> (v, now))\<rparr>)))"

text \<open>
  The refresh handler:
  \<^verbatim>\<open>list_subfolders.clear()
  list_wav_files.clear()
  st.cache_data.clear()\<close>
  \<open>f.clear()\<close> empties the table of \<open>f\<close>; \<open>st.cache_data.clear()\<close> empties the table of
  every function decorated with \<open>st.cache_data\<close>.
\<close>

definition list_subfolders_clear :: "world \<Rightarrow> world" where
  "list_subfolders_clear w = w\<lparr>subfolders_cache := Map.empty\<rparr>"

definition list_wav_files_clear :: "world \<Rightarrow> world" where
  "list_wav_files_clear w = w\<lparr>wav_files_cache := Map.empty\<rparr>"

definition cache_data_clear :: "world \<Rightarrow> world" where
  "cache_data_clear w =
     w\<lparr>subfolders_cache := Map.empty, wav_files_cache := Map.empty,
       file_bytes_cache := Map.empty\<rparr>"

definition refresh_now :: "world \<Rightarrow> world" where
  "refresh_now w = cache_data_clear (list_wav_files_clear (list_subfolders_clear w))"

section \<open>The start of the script\<close>

text \<open>
  What a run of the script shows, in order, up to the folder listing (lines 91 to 111),
  and how that part ends. \<open>st.stop()\<close> and \<open>st.rerun()\<close> end the run; an exception
  nobody catches ends it too.
\<close>

datatype ui =
    Title
  | Error_message string
  | Warning_message string
  | Sidebar_header string
  | Button string

datatype outcome =
    Stopped
  | Rerun
  | Raised error
  | Listed "drive_file list"

definition is_widget :: "ui \<Rightarrow> bool" where
  "is_widget u = (case u of Button label \<Rightarrow> True | _ \<Rightarrow> False)"

definition script_start ::
  "secrets \<Rightarrow> 'd drive \<Rightarrow> int \<Rightarrow> bool \<Rightarrow> world \<Rightarrow> outcome \<times> ui list \<times> world" where
  "script_start sec drv now refresh w =
     (let root_id = GDRIVE_ROOT_FOLDER_ID sec;
          shown = [Title]
      in if \<not> truthy root_id
         then (Stopped, shown @ [Error_message ''Missing GDRIVE_ROOT_FOLDER_ID in Streamlit secrets.''], w)
         else
           (let shown = shown @ [Sidebar_header ''Browse'', Button ''Refresh now'']
            in if refresh then (Rerun, shown, refresh_now w)
               else
                 (case list_subfolders sec drv now (case root_id of Some r \<Rightarrow> r | None \<Rightarrow> []) w of
                    (Inl e, w') \<Rightarrow> (Raised e, shown, w')
                  | (Inr folders, w') \<Rightarrow>
                      if folders = []
                      then (Stopped,
                            shown @ [Warning_message
                              ''No subfolders found under the root folder (or not shared with the service account).''],
                            w')
                      else (Listed folders, shown, w'))))"

section \<open>Example inputs\<close>

text \<open>Entries with only an id and a name, and an entry whose name is missing.\<close>

definition named :: "string \<Rightarrow> string \<Rightarrow> drive_file" where
  "named i n = \<lparr>file_id = i, name = Some n, mimeType = None, file_size = None\<rparr>"

definition nameless :: "string \<Rightarrow> drive_file" where
  "nameless i = \<lparr>file_id = i, name = None, mimeType = None, file_size = None\<rparr>"

definition example_files :: "drive_file list" where
  "example_files = [named ''1'' ''drum_loop.wav'', named ''2'' ''Vocal_Take1.wav'', named ''3'' ''noise.WAVE'']"

definition chunked_drive :: "(bytes \<times> bool) list \<Rightarrow> (bytes \<times> bool) list drive" where
  "chunked_drive stream = \<lparr>execute = (\<lambda>now req. Inr None), media_reader = (\<lambda>now i. stream), next_chunk = chunk_reader\<rparr>"

definition with_credentials :: secrets where
  "with_credentials = \<lparr>GDRIVE_ROOT_FOLDER_ID = Some ''ROOT'', gcp_service_account = Some ''key''\<rparr>"

text \<open>Worlds with empty and with filled caches, settings with one of the two missing, and
  a Drive service that answers every listing with the same entries.\<close>

definition empty_world :: world where
  "empty_world = \<lparr>calls = [], subfolders_cache = Map.empty, wav_files_cache = Map.empty,
     file_bytes_cache = Map.empty\<rparr>"

definition warm_world :: world where
  "warm_world = \<lparr>calls = [], subfolders_cache = [''F'' \<mapsto> ([], 0)],
     wav_files_cache = [''F'' \<mapsto> ([], 0)], file_bytes_cache = [''F'' \<mapsto> (''AB'', 0)]\<rparr>"

definition without_credentials :: secrets where
  "without_credentials = \<lparr>GDRIVE_ROOT_FOLDER_ID = Some ''ROOT'', gcp_service_account = None\<rparr>"

definition without_root :: secrets where
  "without_root = \<lparr>GDRIVE_ROOT_FOLDER_ID = None, gcp_service_account = Some ''key''\<rparr>"

definition listing_drive :: "drive_file list \<Rightarrow> (bytes \<times> bool) list drive" where
  "listing_drive fs = \<lparr>execute = (\<lambda>now req. Inr (Some fs)), media_reader = (\<lambda>now i. then_done [] ''AB''),
     next_chunk = chunk_reader\<rparr>"


text \<open>
  What the specification asks of a run that finds a required setting missing: it stops
  after an error message, with no input widget shown and no call to the Drive service.
\<close>

definition halts_before_interaction :: "outcome \<times> ui list \<times> world \<Rightarrow> world \<Rightarrow> bool" where
  "halts_before_interaction run w =
     (case run of (out, shown, w') \<Rightarrow>
        out = Stopped \<and>
        list_ex (\<lambda>u. case u of Error_message m \<Rightarrow> True | _ \<Rightarrow> False) shown \<and>
        \<not> list_ex is_widget shown \<and>
        calls w' = calls w)"

section \<open>Substrings and the search box\<close>

lemma starts_with_prefix: "starts_with a s = prefix a s"
  by (induction a s rule: starts_with.induct) auto

lemma str_in_sublist: "str_in a s = sublist a s"
  by (induction s) (auto simp: starts_with_prefix sublist_Cons_right)

lemma sublist_map_iff:
  "sublist (map f q) (map f n) \<longleftrightarrow> (\<exists>pre mid post. n = pre @ mid @ post \<and> map f mid = map f q)"
proof
  assume "sublist (map f q) (map f n)"
  then obtain ps ss where "map f n = ps @ map f q @ ss"
    by (auto simp: sublist_def)
  then obtain pre rest where n: "n = pre @ rest" and r: "map f rest = map f q @ ss"
    by (metis map_eq_append_conv)
  from r obtain mid post where "rest = mid @ post" "map f mid = map f q"
    by (metis map_eq_append_conv)
  with n show "\<exists>pre mid post. n = pre @ mid @ post \<and> map f mid = map f q"
    by blast
next
  assume "\<exists>pre mid post. n = pre @ mid @ post \<and> map f mid = map f q"
  then obtain pre mid post where "n = pre @ mid @ post" "map f mid = map f q"
    by blast
  then have "map f n = map f pre @ map f q @ map f post"
    by simp
  then show "sublist (map f q) (map f n)"
    unfolding sublist_def by blast
qed

lemma ci_substring_code [code]: "ci_substring q n = str_in (lower q) (lower n)"
  unfolding str_in_sublist lower_def ci_substring_def by (rule sublist_map_iff [symmetric])

lemma strip_empty_iff: "strip s = [] \<longleftrightarrow> list_all is_space s"
proof (cases "dropWhile is_space s = []")
  case True
  have "strip s = []"
    by (simp only: strip_def True rev.simps dropWhile.simps)
  moreover from True have "list_all is_space s"
    by (simp add: dropWhile_eq_Nil_conv list_all_iff)
  ultimately show ?thesis
    by simp
next
  case False
  then have "\<not> is_space (hd (dropWhile is_space s))"
    by (rule hd_dropWhile)
  moreover have "hd (dropWhile is_space s) \<in> set (rev (dropWhile is_space s))"
    using False by simp
  ultimately have "dropWhile is_space (rev (dropWhile is_space s)) \<noteq> []"
    unfolding dropWhile_eq_Nil_conv by blast
  then have "strip s \<noteq> []"
    by (simp only: strip_def rev_is_Nil_conv not_False_eq_True)
  moreover from False have "\<not> list_all is_space s"
    by (simp add: dropWhile_eq_Nil_conv list_all_iff)
  ultimately show ?thesis
    by simp
qed

lemma filter_by_query_filter:
  "list_all (\<lambda>f. name f \<noteq> None) files \<Longrightarrow>
   filter_by_query query files = Inr (filter (name_contains query) files)"
  by (induction files) (auto simp: index_name_def name_contains_def ci_substring_code)

text \<open>
  Beyond ASCII: the capital E with acute accent (201) is lower-cased to the small one
  (233), the multiplication sign (215) and the sharp s (223) stay, and a search text that
  is one no-break space (160) or one next-line control (133) is stripped to nothing.
\<close>

lemma latin1_characters:
  "lower [char_of (201 :: nat)] = [char_of (233 :: nat)] \<and>
   lower [char_of (215 :: nat), char_of (223 :: nat)] = [char_of (215 :: nat), char_of (223 :: nat)] \<and>
   strip [char_of (160 :: nat)] = [] \<and> strip [char_of (133 :: nat)] = [] \<and>
   apply_query [char_of (160 :: nat)] [named ''1'' ''ab.wav''] = Inr [named ''1'' ''ab.wav'']"
  by code_simp

text \<open>
  C3 (as amended). For every list of files that all have a name and every search text,
  both over the characters U+0000 to U+00FF: when the search text has a character that is
  not whitespace, the filtered list holds exactly the files, in the order of the list,
  whose full name contains the search text as a case-insensitive substring; when the
  search text is empty or all whitespace, the list is left as it is. For the files
  drum_loop.wav, Vocal_Take1.wav, noise.WAVE and the search text "take" the result is
  exactly Vocal_Take1.wav.
\<close>

theorem search_box_filter:
  assumes "list_all (\<lambda>f. name f \<noteq> None) files"
  shows "apply_query query files =
     Inr (if list_all is_space query then files else filter (name_contains query) files)"
  using assms by (simp add: apply_query_def strip_empty_iff filter_by_query_filter)

theorem search_box_filter_witness:
  "apply_query ''take'' example_files = Inr [named ''2'' ''Vocal_Take1.wav'']"
proof -
  have h: "list_all (\<lambda>f. name f \<noteq> None) example_files"
    by (simp add: example_files_def named_def)
  have "apply_query ''take'' example_files =
     Inr (if list_all is_space ''take'' then example_files
          else filter (name_contains ''take'') example_files)"
    by (rule search_box_filter [OF h])
  also have "\<dots> = Inr [named ''2'' ''Vocal_Take1.wav'']"
    by code_simp
  finally show ?thesis .
qed

text \<open>
  C3 as it was stated fails on a search text of one blank: the file ab.wav does not
  contain a blank and is still listed, because \<open>query.strip()\<close> is empty and the
  filter is skipped.
\<close>

theorem blank_search_counterexample:
  "apply_query '' '' [named ''1'' ''ab.wav''] \<noteq>
     Inr (filter (name_contains '' '') [named ''1'' ''ab.wav''])"
  by code_simp

section \<open>The listing of audio files\<close>

lemma is_wav_total:
  "is_wav f = Inr (case name f of None \<Rightarrow> False | Some n \<Rightarrow> n \<noteq> [] \<and> search AUDIO_EXT_RE n)"
  by (simp add: is_wav_def truthy_def get_name_def index_name_def split: option.splits)

lemma wavs_filter:
  "wavs files = Inr (filter (\<lambda>f. case name f of None \<Rightarrow> False | Some n \<Rightarrow> n \<noteq> [] \<and> search AUDIO_EXT_RE n) files)"
  by (induction files) (simp_all add: is_wav_total)

text \<open>
  C10. With credentials present and for every answer of the Drive service to the listing
  request, \<open>list_wav_files\<close> returns a list and raises nothing: the list is the
  answer's entries that have a name which is present, not empty and matched by the
  pattern, in the order of the answer. So every entry it returns has a name that is
  present and not empty, and every entry of the answer whose name is missing or empty is
  absent from the result. The same holds of the comprehension on any list of entries.
\<close>

theorem list_wav_files_drops_nameless:
  assumes "gcp_service_account sec = Some creds"
    and "execute drv now (wav_files_request folder_id) = Inr res"
  shows "\<exists>r. list_wav_files_body sec drv now folder_id cs =
              (Inr r, cs @ [Files_list (wav_files_request folder_id)]) \<and>
           r = filter (\<lambda>f. case name f of None \<Rightarrow> False | Some n \<Rightarrow> n \<noteq> [] \<and> search AUDIO_EXT_RE n)
                 (res_get_files res) \<and>
           (\<forall>f \<in> set r. \<exists>n. name f = Some n \<and> n \<noteq> []) \<and>
           (\<forall>f \<in> set (res_get_files res). name f = None \<or> name f = Some [] \<longrightarrow> f \<notin> set r) \<and>
           (\<forall>files. \<exists>r'. wavs files = Inr r' \<and>
              (\<forall>f \<in> set r'. \<exists>n. name f = Some n \<and> n \<noteq> []) \<and>
              (\<forall>f \<in> set files. name f = None \<or> name f = Some [] \<longrightarrow> f \<notin> set r'))"
proof -
  let ?kept = "\<lambda>f. case name f of None \<Rightarrow> False | Some n \<Rightarrow> n \<noteq> [] \<and> search AUDIO_EXT_RE n"
  have body: "list_wav_files_body sec drv now folder_id cs =
      (Inr (filter ?kept (res_get_files res)), cs @ [Files_list (wav_files_request folder_id)])"
    using assms by (simp add: list_wav_files_body_def get_drive_service_def Let_def wavs_filter)
  have named: "\<forall>f \<in> set (filter ?kept fs). \<exists>n. name f = Some n \<and> n \<noteq> []" for fs
    by (auto split: option.splits)
  have dropped: "\<forall>f \<in> set fs. name f = None \<or> name f = Some [] \<longrightarrow> f \<notin> set (filter ?kept fs)" for fs
    by (auto split: option.splits)
  have every: "\<forall>files. \<exists>r'. wavs files = Inr r' \<and>
              (\<forall>f \<in> set r'. \<exists>n. name f = Some n \<and> n \<noteq> []) \<and>
              (\<forall>f \<in> set files. name f = None \<or> name f = Some [] \<longrightarrow> f \<notin> set r')"
    using named dropped wavs_filter by blast
  from body named [of "res_get_files res"] dropped [of "res_get_files res"] every
  show ?thesis by blast
qed

theorem list_wav_files_drops_nameless_witness:
  "list_wav_files_body with_credentials
      (listing_drive [nameless ''1'', named ''2'' [], named ''3'' ''ok.wav'']) 0 ''F'' [] =
     (Inr [named ''3'' ''ok.wav''], [Files_list (wav_files_request ''F'')]) \<and>
   name (nameless ''1'') = None \<and> name (named ''2'' []) = Some [] \<and>
   name (named ''3'' ''ok.wav'') = Some ''ok.wav''"
proof -
  let ?fs = "[nameless ''1'', named ''2'' [], named ''3'' ''ok.wav'']"
  let ?kept = "\<lambda>f. case name f of None \<Rightarrow> False | Some n \<Rightarrow> n \<noteq> [] \<and> search AUDIO_EXT_RE n"
  have k: "gcp_service_account with_credentials = Some ''key''"
    by (simp add: with_credentials_def)
  have e: "execute (listing_drive ?fs) 0 (wav_files_request ''F'') = Inr (Some ?fs)"
    by (simp add: listing_drive_def)
  from list_wav_files_drops_nameless [OF k e, of "[]"]
  obtain r where b: "list_wav_files_body with_credentials (listing_drive ?fs) 0 ''F'' [] =
        (Inr r, [] @ [Files_list (wav_files_request ''F'')])"
    and r: "r = filter ?kept (res_get_files (Some ?fs))"
    by blast
  have "filter ?kept (res_get_files (Some ?fs)) = [named ''3'' ''ok.wav'']"
    by code_simp
  with b r show ?thesis
    by (simp add: named_def nameless_def)
qed

text \<open>
  C1 at the input that separates the code from the claim: a file named \<open>a.wav\<close>
  followed by a line feed is listed, since \<open>$\<close> matches before a final line feed,
  although its name does not end in \<open>.wav\<close> or \<open>.wave\<close>.
\<close>

theorem trailing_newline_listed:
  "wavs [named ''1'' (''a.wav'' @ [newline])] = Inr [named ''1'' (''a.wav'' @ [newline])] \<and>
   \<not> has_audio_suffix (''a.wav'' @ [newline])"
  by code_simp

section \<open>Pagination\<close>

lemma ceil_div1:
  fixes t p :: int
  assumes "0 < p"
  shows "(t + p - 1) div p = - ((- t) div p)"
proof -
  define k r where "k = (- t) div p" and "r = (- t) mod p"
  have r: "0 \<le> r" "r < p"
    using assms by (simp_all add: r_def)
  have "- t = p * k + r"
    by (simp add: k_def r_def)
  then have "t + p - 1 = p * (- k) + (p - 1 - r)"
    by (simp add: algebra_simps)
  moreover have "0 \<le> p - 1 - r" "p - 1 - r < p"
    using r by simp_all
  ultimately have "(t + p - 1) div p = - k"
    by (rule int_div_pos_eq)
  then show ?thesis
    by (simp add: k_def)
qed

lemma ceil_div:
  fixes t p :: int
  assumes "0 < p"
  shows "(t + p - 1) div p = \<lceil>real_of_int t / real_of_int p\<rceil>"
  using ceil_div1 [OF assms] by (simp add: ceiling_divide_eq_div)

lemma slice_nth: "b \<le> length xs \<Longrightarrow> take (b - a) (drop a xs) = map ((!) xs) [a..<b]"
  by (auto simp: list_eq_iff_nth_eq)

lemma files_page_slice:
  assumes ps: "0 < page_size" and pg: "1 \<le> page"
  shows "files_page files page_size page =
     map ((!) files) [nat ((page - 1) * page_size) ..< nat (min (int (length files)) (page * page_size))]"
proof -
  define n s where "n = int (length files)" and "s = (page - 1) * page_size"
  have s0: "0 \<le> s"
    using ps pg by (simp add: s_def)
  have sp: "page * page_size = s + page_size"
    by (simp add: s_def algebra_simps)
  have n0: "0 \<le> n"
    by (simp add: n_def)
  show ?thesis
  proof (cases "s \<le> n")
    case True
    define e where "e = min (s + page_size) n"
    have e: "s \<le> e" "e \<le> n" "0 \<le> e"
      using True ps s0 by (simp_all add: e_def)
    have "files_page files page_size page = take (nat (e - s)) (drop (nat s) files)"
      using s0 e True unfolding files_page_def py_slice_def Let_def n_def [symmetric] s_def [symmetric] e_def [symmetric]
      by (simp add: min_absorb1)
    also have "nat (e - s) = nat e - nat s"
      using s0 e by (simp add: nat_diff_distrib)
    also have "take (nat e - nat s) (drop (nat s) files) = map ((!) files) [nat s..<nat e]"
      using e by (intro slice_nth) (simp add: n_def)
    finally show ?thesis
      by (simp add: sp e_def n_def [symmetric] s_def [symmetric] min.commute)
  next
    case False
    then have "files_page files page_size page = []"
      using s0 ps n0 unfolding files_page_def py_slice_def Let_def n_def [symmetric] s_def [symmetric]
      by simp
    moreover have "[nat s ..< nat (min n (page * page_size))] = []"
      using False ps by (simp add: sp)
    ultimately show ?thesis
      by (simp add: n_def [symmetric] s_def [symmetric])
  qed
qed

lemma page_count_ceiling:
  assumes "0 < page_size"
  shows "page_count t page_size = Inr (max 1 \<lceil>real_of_int t / real_of_int page_size\<rceil>)"
  using assms by (simp add: page_count_def ceil_div)

lemma visible_page_files_page:
  "apply_query query listed = Inr filtered \<Longrightarrow> page_size \<noteq> 0 \<Longrightarrow>
   visible_page listed query page_size page = Inr (files_page filtered page_size page)"
  by (simp add: visible_page_def page_count_def)

text \<open>
  C2. For every list of filtered files, every positive page size and every page number
  from 1 on, the page count is \<open>max(1, ceil(total / pageSize))\<close> and the page is exactly
  the slice from \<open>(p-1)*pageSize\<close> up to, not including, \<open>min(total, p*pageSize)\<close>.
  For 125 files and a page size of 50 there are 3 pages, page 1 holds the items 0 to 49
  and page 3 the 25 items 100 to 124. The visible page of a listing is that slice of
  the list the search box leaves: whenever the search box gives a filtered list,
  \<open>visible_page\<close> returns exactly the slice of it, and with 125 files left and a page
  size of 50 its page 1 is the items 0 to 49 and its page 3 the 25 items 100 to 124.
\<close>

theorem page_count_and_page_slice:
  "(0 < page_size \<and> 1 \<le> page \<longrightarrow>
      page_count (int (length files)) page_size =
        Inr (max 1 \<lceil>real (length files) / real_of_int page_size\<rceil>) \<and>
      files_page files page_size page =
        map ((!) files)
          [nat ((page - 1) * page_size) ..< nat (min (int (length files)) (page * page_size))]) \<and>
   (length files = 125 \<longrightarrow>
      page_count (int (length files)) 50 = Inr 3 \<and>
      files_page files 50 1 = map ((!) files) [0..<50] \<and>
      files_page files 50 3 = map ((!) files) [100..<125] \<and>
      length (files_page files 50 3) = 25) \<and>
   (apply_query query listed = Inr filtered \<and> 0 < page_size \<and> 1 \<le> page \<longrightarrow>
      visible_page listed query page_size page =
        Inr (map ((!) filtered)
          [nat ((page - 1) * page_size) ..< nat (min (int (length filtered)) (page * page_size))])) \<and>
   (apply_query query listed = Inr filtered \<and> length filtered = 125 \<longrightarrow>
      visible_page listed query 50 1 = Inr (map ((!) filtered) [0..<50]) \<and>
      visible_page listed query 50 3 = Inr (map ((!) filtered) [100..<125]) \<and>
      (\<exists>shown. visible_page listed query 50 3 = Inr shown \<and> length shown = 25))"
proof (intro conjI impI)
  assume "0 < page_size \<and> 1 \<le> page"
  then show "page_count (int (length files)) page_size =
        Inr (max 1 \<lceil>real (length files) / real_of_int page_size\<rceil>)"
    using page_count_ceiling [of page_size "int (length files)"] by simp
next
  assume "0 < page_size \<and> 1 \<le> page"
  then show "files_page files page_size page =
        map ((!) files)
          [nat ((page - 1) * page_size) ..< nat (min (int (length files)) (page * page_size))]"
    by (simp add: files_page_slice)
next
  assume "length files = 125"
  then show "page_count (int (length files)) 50 = Inr 3"
    by (simp add: page_count_def)
next
  assume "length files = 125"
  then show "files_page files 50 1 = map ((!) files) [0..<50]"
    using files_page_slice [of 50 1 files] by simp
next
  assume l: "length files = 125"
  then show p3: "files_page files 50 3 = map ((!) files) [100..<125]"
    using files_page_slice [of 50 3 files] by simp
  show "length (files_page files 50 3) = 25"
    unfolding p3 by simp
next
  assume a: "apply_query query listed = Inr filtered \<and> 0 < page_size \<and> 1 \<le> page"
  then have "visible_page listed query page_size page = Inr (files_page filtered page_size page)"
    by (simp add: visible_page_files_page)
  with a show "visible_page listed query page_size page =
        Inr (map ((!) filtered)
          [nat ((page - 1) * page_size) ..< nat (min (int (length filtered)) (page * page_size))])"
    by (simp add: files_page_slice)
next
  assume a: "apply_query query listed = Inr filtered \<and> length filtered = 125"
  then have "visible_page listed query 50 1 = Inr (files_page filtered 50 1)"
    by (simp add: visible_page_files_page)
  with a show "visible_page listed query 50 1 = Inr (map ((!) filtered) [0..<50])"
    using files_page_slice [of 50 1 filtered] by simp
next
  assume a: "apply_query query listed = Inr filtered \<and> length filtered = 125"
  then have "visible_page listed query 50 3 = Inr (files_page filtered 50 3)"
    by (simp add: visible_page_files_page)
  with a show v3: "visible_page listed query 50 3 = Inr (map ((!) filtered) [100..<125])"
    using files_page_slice [of 50 3 filtered] by simp
  show "\<exists>shown. visible_page listed query 50 3 = Inr shown \<and> length shown = 25"
    unfolding v3 by simp
qed

lemma map_nth_upt: "b \<le> n \<Longrightarrow> map ((!) [0..<n]) [a..<b] = [a..<b]"
  by (auto simp: list_eq_iff_nth_eq)

theorem page_count_and_page_slice_witness:
  "(0::int) < 50 \<and> (1::int) \<le> 3 \<and> length [0..<125::nat] = 125 \<and>
   page_count (int (length [0..<125::nat])) 50 = Inr 3 \<and>
   files_page [0..<125::nat] 50 1 = [0..<50] \<and>
   files_page [0..<125::nat] 50 3 = [100..<125] \<and>
   apply_query ''wav'' example_files = Inr example_files \<and>
   visible_page example_files ''wav'' 2 1 =
     Inr [named ''1'' ''drum_loop.wav'', named ''2'' ''Vocal_Take1.wav''] \<and>
   visible_page example_files ''wav'' 2 2 = Inr [named ''3'' ''noise.WAVE'']"
proof -
  have plain: "(0::int) < 50 \<and> (1::int) \<le> 3 \<and> length [0..<125::nat] = 125 \<and>
     page_count (int (length [0..<125::nat])) 50 = Inr 3 \<and>
     files_page [0..<125::nat] 50 1 = [0..<50] \<and>
     files_page [0..<125::nat] 50 3 = [100..<125]"
    using page_count_and_page_slice [of 50 3 "[0..<125::nat]"]
    by (simp add: map_nth_upt)
  have q: "apply_query ''wav'' example_files = Inr example_files"
    by code_simp
  have "visible_page example_files ''wav'' 2 1 =
      Inr (map ((!) example_files)
        [nat ((1 - 1) * 2) ..< nat (min (int (length example_files)) (1 * 2))])"
    using page_count_and_page_slice
      [where page_size = 2 and page = 1 and listed = example_files and query = "''wav''"
         and filtered = example_files and files = "[] :: nat list",
       THEN conjunct2, THEN conjunct2, THEN conjunct1] q
    by simp
  also have "\<dots> = Inr [named ''1'' ''drum_loop.wav'', named ''2'' ''Vocal_Take1.wav'']"
    by code_simp
  finally have p1: "visible_page example_files ''wav'' 2 1 =
      Inr [named ''1'' ''drum_loop.wav'', named ''2'' ''Vocal_Take1.wav'']" .
  have "visible_page example_files ''wav'' 2 2 =
      Inr (map ((!) example_files)
        [nat ((2 - 1) * 2) ..< nat (min (int (length example_files)) (2 * 2))])"
    using page_count_and_page_slice
      [where page_size = 2 and page = 2 and listed = example_files and query = "''wav''"
         and filtered = example_files and files = "[] :: nat list",
       THEN conjunct2, THEN conjunct2, THEN conjunct1] q
    by simp
  also have "\<dots> = Inr [named ''3'' ''noise.WAVE'']"
    by code_simp
  finally have p2: "visible_page example_files ''wav'' 2 2 = Inr [named ''3'' ''noise.WAVE'']" .
  from plain q p1 p2 show ?thesis
    by simp
qed

text \<open>
  C8. When the search leaves no file, then for every page size from 10 to 200 and every
  page number the page count is 1 and the visible page is the empty list; nothing is
  raised.
\<close>

theorem no_files_one_empty_page:
  assumes "10 \<le> page_size" and "page_size \<le> 200" and "apply_query query files = Inr []"
  shows "page_count (int (length ([] :: drive_file list))) page_size = Inr 1 \<and>
         files_page ([] :: drive_file list) page_size page = [] \<and>
         visible_page files query page_size page = Inr []"
proof -
  have "(page_size - 1) div page_size = 0"
    using assms(1) by (simp add: div_pos_pos_trivial)
  then have pc: "page_count 0 page_size = Inr 1"
    using assms(1) by (simp add: page_count_def)
  have fp: "files_page ([] :: drive_file list) page_size page = []"
    by (simp add: files_page_def py_slice_def)
  show ?thesis
    using pc fp assms(3) by (simp add: visible_page_def)
qed

theorem no_files_one_empty_page_witness:
  "apply_query ''zzz'' example_files = Inr [] \<and>
   page_count 0 50 = Inr 1 \<and> visible_page example_files ''zzz'' 50 7 = Inr []"
proof -
  have h: "apply_query ''zzz'' example_files = Inr []"
    by code_simp
  show ?thesis
    using no_files_one_empty_page [of 50 "''zzz''" example_files 7] h by simp
qed

section \<open>The download loop\<close>

lemma download_loop_chunks:
  "download_loop chunk_reader (map (\<lambda>c. (c, False)) chunks @ (final, True) # rest) fh =
     Some (Inr (fh @ concat chunks @ final))"
proof (induction chunks arbitrary: fh)
  case Nil
  show ?case by (subst download_loop.simps) simp
next
  case (Cons c chunks)
  show ?case by (subst download_loop.simps) (simp add: Cons.IH)
qed

text \<open>
  C5. With credentials present and a reader that delivers a finite sequence of chunks,
  the last one with \<open>done\<close>, the loop returns, and returns the chunks concatenated in
  order; \<open>download_file_bytes\<close> makes one \<open>get_media\<close> call for it. For the chunks
  AB, CD, EF the result is ABCDEF.
\<close>

theorem download_concatenates_chunks:
  assumes "gcp_service_account sec = Some creds"
    and "next_chunk drv = chunk_reader"
    and "media_reader drv now i = then_done chunks final"
  shows "download_loop (next_chunk drv) (media_reader drv now i) [] = Some (Inr (concat chunks @ final)) \<and>
         download_file_bytes_body sec drv now i cs = Some (Inr (concat chunks @ final), cs @ [Get_media i])"
  using assms download_loop_chunks [of chunks final "[]" "[]"]
  by (simp add: download_file_bytes_body_def get_drive_service_def then_done_def)

theorem download_concatenates_chunks_witness:
  "download_file_bytes_body with_credentials (chunked_drive (then_done [''AB'', ''CD''] ''EF'')) 0 ''f1'' [] =
     Some (Inr ''ABCDEF'', [Get_media ''f1''])"
  using download_concatenates_chunks [of with_credentials "''key''"
      "chunked_drive (then_done [''AB'', ''CD''] ''EF'')" 0 "''f1''" "[''AB'', ''CD'']" "''EF''" "[]"]
  by (simp add: with_credentials_def chunked_drive_def)

section \<open>The request for subfolders\<close>

text \<open>
  The root folder id is put between the quotes as it is: a quote inside the id ends the
  quoted part, and what follows it is read by the Drive service as part of the filter.
\<close>

lemma root_id_inserted_unescaped:
  "q_arg (subfolders_request (''A'' @ quoted '' in parents or '' @ ''B'')) =
     quoted ''A'' @ '' in parents or '' @ quoted ''B'' @
     '' in parents and mimeType = 'application/vnd.google-apps.folder' and trashed = false''"
  by (simp add: subfolders_request_def quoted_def)




section \<open>The caches\<close>

text \<open>
  C6. With credentials present and no valid cache entry for the folder, a first call of
  \<open>list_wav_files\<close> that the Drive service answers makes exactly one call on the
  service; a second call for the same folder less than 60 seconds later returns the same
  result and leaves the world, and so the list of calls, as it is, whatever the service
  would answer by then.
\<close>

theorem second_listing_from_cache:
  assumes "gcp_service_account sec = Some creds"
    and "cache_read 60 t1 (wav_files_cache w) folder_id = None"
    and "execute drv t1 (wav_files_request folder_id) = Inr res"
    and "t2 - t1 < 60"
  shows "\<exists>v w1. list_wav_files sec drv t1 folder_id w = (Inr v, w1) \<and>
           calls w1 = calls w @ [Files_list (wav_files_request folder_id)] \<and>
           list_wav_files sec' drv' t2 folder_id w1 = (Inr v, w1)"
  using assms
  by (simp add: list_wav_files_def list_wav_files_body_def get_drive_service_def wavs_filter
      cache_read_def Let_def)

theorem second_listing_from_cache_witness:
  "\<exists>w1. list_wav_files with_credentials (listing_drive example_files) 0 ''F'' empty_world =
          (Inr example_files, w1) \<and>
        calls w1 = [Files_list (wav_files_request ''F'')] \<and>
        list_wav_files with_credentials (listing_drive []) 59 ''F'' w1 = (Inr example_files, w1)"
proof -
  have c: "cache_read 60 0 (wav_files_cache empty_world) ''F'' = None"
    by (simp add: cache_read_def empty_world_def)
  have x: "execute (listing_drive example_files) 0 (wav_files_request ''F'') = Inr (Some example_files)"
    by (simp add: listing_drive_def)
  have k: "gcp_service_account with_credentials = Some ''key''"
    by (simp add: with_credentials_def)
  obtain v w1 where
    1: "list_wav_files with_credentials (listing_drive example_files) 0 ''F'' empty_world = (Inr v, w1)" and
    2: "calls w1 = calls empty_world @ [Files_list (wav_files_request ''F'')]" and
    3: "list_wav_files with_credentials (listing_drive []) 59 ''F'' w1 = (Inr v, w1)"
    using second_listing_from_cache [OF k c x, of 59 with_credentials "listing_drive []"] by auto
  have e: "wavs example_files = Inr example_files"
    by code_simp
  have "fst (list_wav_files with_credentials (listing_drive example_files) 0 ''F'' empty_world) =
     Inr example_files"
    using c k x by (simp add: list_wav_files_def list_wav_files_body_def get_drive_service_def
        res_get_files_def e Let_def)
  with 1 have "v = example_files"
    by simp
  with 1 2 3 show ?thesis
    by (auto simp: empty_world_def)
qed

lemma refresh_now_caches:
  "subfolders_cache (refresh_now w) = Map.empty"
  "wav_files_cache (refresh_now w) = Map.empty"
  "file_bytes_cache (refresh_now w) = Map.empty"
  "calls (refresh_now w) = calls w"
  by (simp_all add: refresh_now_def cache_data_clear_def list_wav_files_clear_def
      list_subfolders_clear_def)

text \<open>
  C7. The refresh handler empties all three cache tables. With credentials present, the
  next call of either listing function, at any time and for any key, makes a fresh call
  on the Drive service, and the next \<open>download_file_bytes\<close> returns exactly when the
  download loop on a fresh reader returns, with a fresh \<open>get_media\<close> call.
\<close>

theorem refresh_forces_fresh_calls:
  assumes "gcp_service_account sec = Some creds"
  shows "subfolders_cache (refresh_now w) = Map.empty \<and>
         wav_files_cache (refresh_now w) = Map.empty \<and>
         file_bytes_cache (refresh_now w) = Map.empty \<and>
         calls (snd (list_subfolders sec drv now k (refresh_now w))) =
           calls w @ [Files_list (subfolders_request k)] \<and>
         calls (snd (list_wav_files sec drv now k (refresh_now w))) =
           calls w @ [Files_list (wav_files_request k)] \<and>
         map_option (\<lambda>r. calls (snd r)) (download_file_bytes sec drv now k (refresh_now w)) =
           map_option (\<lambda>r. calls w @ [Get_media k])
             (download_loop (next_chunk drv) (media_reader drv now k) [])"
  using assms
  by (simp add: refresh_now_caches list_subfolders_def list_wav_files_def download_file_bytes_def
      list_subfolders_body_def list_wav_files_body_def download_file_bytes_body_def
      get_drive_service_def cache_read_def wavs_filter Let_def
      split: sum.splits option.splits)

theorem refresh_forces_fresh_calls_witness:
  "calls (snd (list_wav_files with_credentials (listing_drive example_files) 10 ''F'' warm_world)) = [] \<and>
   calls (snd (list_wav_files with_credentials (listing_drive example_files) 10 ''F'' (refresh_now warm_world))) =
     [Files_list (wav_files_request ''F'')] \<and>
   calls (snd (list_subfolders with_credentials (listing_drive example_files) 10 ''F'' (refresh_now warm_world))) =
     [Files_list (subfolders_request ''F'')]"
proof -
  have k: "gcp_service_account with_credentials = Some ''key''"
    by (simp add: with_credentials_def)
  have a: "calls (snd (list_wav_files with_credentials (listing_drive example_files) 10 ''F'' warm_world)) = []"
    by (simp add: list_wav_files_def cache_read_def warm_world_def)
  have c: "calls warm_world = []"
    by (simp add: warm_world_def)
  from refresh_forces_fresh_calls [OF k, of warm_world "listing_drive example_files" 10 "''F''"] a c
  show ?thesis
    by simp
qed

section \<open>Missing settings\<close>

text \<open>
  The check of the root folder id: when it is missing or empty, the run shows the title
  and the error message and stops; no input widget is shown, no call is made on the Drive
  service and the world is unchanged.
\<close>

lemma missing_root_stops:
  "\<not> truthy (GDRIVE_ROOT_FOLDER_ID sec) \<Longrightarrow>
     script_start sec drv now refresh w =
       (Stopped, [Title, Error_message ''Missing GDRIVE_ROOT_FOLDER_ID in Streamlit secrets.''], w) \<and>
     halts_before_interaction (script_start sec drv now refresh w) w"
  by (simp add: script_start_def halts_before_interaction_def is_widget_def)

text \<open>
  The credentials have no such check: \<open>get_drive_service\<close> reads them where it is
  called, and a missing key is a \<open>KeyError\<close> raised out of the function that called it.
\<close>

lemma missing_credentials_raise:
  "gcp_service_account sec = None \<Longrightarrow>
     get_drive_service sec = Inl (KeyError ''gcp_service_account'') \<and>
     list_subfolders_body sec drv now root_folder_id cs = (Inl (KeyError ''gcp_service_account''), cs) \<and>
     list_wav_files_body sec drv now folder_id cs = (Inl (KeyError ''gcp_service_account''), cs)"
  by (simp add: get_drive_service_def list_subfolders_body_def list_wav_files_body_def)

text \<open>
  C4 at the input that separates the code from the claim: settings with a root folder id
  and without credentials, on a first run with empty caches and the refresh button not
  pressed. The run does not halt with a message before any interaction: it shows the
  title, the sidebar header and the refresh button, and then ends in the \<open>KeyError\<close>
  that \<open>get_drive_service\<close> raises inside \<open>list_subfolders\<close>, which nobody catches;
  no error message is shown. With the root folder id missing instead, the run does halt
  as the claim says.
\<close>

theorem missing_credentials_run:
  "script_start without_credentials (listing_drive example_files) 0 False empty_world =
     (Raised (KeyError ''gcp_service_account''),
      [Title, Sidebar_header ''Browse'', Button ''Refresh now''], empty_world) \<and>
   \<not> halts_before_interaction
       (script_start without_credentials (listing_drive example_files) 0 False empty_world) empty_world \<and>
   halts_before_interaction
       (script_start without_root (listing_drive example_files) 0 False empty_world) empty_world"
  by (simp add: script_start_def halts_before_interaction_def is_widget_def
      without_credentials_def without_root_def truthy_def
      empty_world_def list_subfolders_def list_subfolders_body_def get_drive_service_def
      cache_read_def)

end
